theory Spec2Isabelle
  imports Main "HOL-Library.AList"
begin

section \<open>Python strings\<close>

text \<open>
  A Python \<open>str\<close> is modelled as a \<open>string\<close>, one \<open>char\<close> per code point, which covers
  the code points below 256. \<open>is_space\<close> is \<open>str.isspace\<close> on that range: the characters
  that \<open>str.strip()\<close> removes.
\<close>

definition is_space :: "char \<Rightarrow> bool" where
  "is_space c = (of_char c \<in> {9, 10, 11, 12, 13, 28, 29, 30, 31, 32, 133, 160 :: nat})"

text \<open>\<open>s.strip()\<close>\<close>

definition py_strip :: "string \<Rightarrow> string" where
  "py_strip s = rev (dropWhile is_space (rev (dropWhile is_space s)))"

text \<open>\<open>s.split(sep)\<close> for a one-character separator: never an empty list.\<close>

fun py_split :: "char \<Rightarrow> string \<Rightarrow> string list" where
  "py_split sep [] = [[]]"
| "py_split sep (x # xs) =
     (if x = sep then [] # py_split sep xs
      else (case py_split sep xs of
              [] \<Rightarrow> [[x]]
            | w # ws \<Rightarrow> (x # w) # ws))"

text \<open>\<open>s.split(sep, 1)\<close> unpacked into two names, used where \<open>sep in s\<close> holds.\<close>

definition py_split1 :: "char \<Rightarrow> string \<Rightarrow> string \<times> string" where
  "py_split1 sep s = (takeWhile (\<lambda>c. c \<noteq> sep) s, drop 1 (dropWhile (\<lambda>c. c \<noteq> sep) s))"

text \<open>\<open>s.replace('*', '.*')\<close>\<close>

definition replace_star :: "string \<Rightarrow> string" where
  "replace_star s = concat (map (\<lambda>c. if c = CHR ''*'' then ''.*'' else [c]) s)"

text \<open>\<open>s.split()\<close>: the maximal runs of characters that are not whitespace.\<close>

fun py_words_from :: "string \<Rightarrow> string \<Rightarrow> string list" where
  "py_words_from cur [] = (if cur = [] then [] else [rev cur])"
| "py_words_from cur (c # cs) =
     (if is_space c then (if cur = [] then py_words_from [] cs else rev cur # py_words_from [] cs)
      else py_words_from (c # cur) cs)"

definition py_words :: "string \<Rightarrow> string list" where
  "py_words s = py_words_from [] s"

text \<open>\<open>s.lower()\<close> on the code points below 256.\<close>

definition py_lower_char :: "char \<Rightarrow> char" where
  "py_lower_char c =
     (let n = (of_char c :: nat)
      in if (65 \<le> n \<and> n \<le> 90) \<or> (192 \<le> n \<and> n \<le> 222 \<and> n \<noteq> 215)
         then char_of (n + 32) else c)"

definition py_lower :: "string \<Rightarrow> string" where
  "py_lower s = map py_lower_char s"

text \<open>The truth value of an \<open>Optional[str]\<close>: false for \<open>None\<close> and for the empty string.\<close>

fun truthy :: "string option \<Rightarrow> bool" where
  "truthy None = False"
| "truthy (Some s) = (s \<noteq> [])"

section \<open>Exceptions\<close>

text \<open>
  The exceptions of the model: \<open>TypeError\<close>, \<open>re.error\<close> and \<open>HTTPException\<close> with its
  status code. \<open>Unmodelled_pattern\<close> is not an exception of Python: it marks a regular
  expression that the model of \<open>re.match\<close> below does not cover.
\<close>

datatype exn =
    TypeError
  | ReError
  | HTTPException nat
  | Unmodelled_pattern

section \<open>Regular expressions of the scope authorizer\<close>

text \<open>
  The authorizer calls \<open>re.match(pattern, user_subsystem)\<close> with
  \<open>pattern = '^' + req_subsystem.replace('*', '.*') + '$'\<close>. The functions of the
  authorizer take the library function as a parameter \<open>re\<close>, whose result is \<open>Inr\<close> of
  the truth value of the match object, or \<open>Inl\<close> when the library raises.

  \<open>re_match\<close> is Python's \<open>re.match\<close> on the patterns \<open>^body$\<close> whose body is built
  from ordinary characters, \<open>.\<close> and \<open>.*\<close>: \<open>.\<close> matches any character but a newline,
  \<open>$\<close> matches at the end of the string and before a newline that ends the string.
  Every other pattern is outside this fragment and gives \<open>Inl Unmodelled_pattern\<close>.
\<close>

datatype atom = Lit char | Dot | DotStar

definition re_special :: "char \<Rightarrow> bool" where
  "re_special c = (c \<in> set (CHR 0x5C # ''.^$*+?{}[]|()''))"

fun re_parse :: "string \<Rightarrow> atom list option" where
  "re_parse [] = Some []"
| "re_parse (c # cs) =
     (if c = CHR ''.'' then
        (case cs of
           d # ds \<Rightarrow>
             (if d = CHR ''*'' then map_option (Cons DotStar) (re_parse ds)
              else map_option (Cons Dot) (re_parse cs))
         | [] \<Rightarrow> Some [Dot])
      else if re_special c then None
      else map_option (Cons (Lit c)) (re_parse cs))"

fun re_atoms_match :: "atom list \<Rightarrow> string \<Rightarrow> bool" where
  "re_atoms_match [] s = (s = [] \<or> s = [CHR 0x0A])"
| "re_atoms_match (Lit c # as) [] = False"
| "re_atoms_match (Lit c # as) (d # ds) = (c = d \<and> re_atoms_match as ds)"
| "re_atoms_match (Dot # as) [] = False"
| "re_atoms_match (Dot # as) (d # ds) = (d \<noteq> CHR 0x0A \<and> re_atoms_match as ds)"
| "re_atoms_match (DotStar # as) [] = re_atoms_match as []"
| "re_atoms_match (DotStar # as) (d # ds) =
     (re_atoms_match as (d # ds) \<or> (d \<noteq> CHR 0x0A \<and> re_atoms_match (DotStar # as) ds))"

definition re_match :: "string \<Rightarrow> string \<Rightarrow> exn + bool" where
  "re_match pattern s =
     (case pattern of
        [] \<Rightarrow> Inl Unmodelled_pattern
      | c # cs \<Rightarrow>
          (if c = CHR ''^'' \<and> cs \<noteq> [] \<and> last cs = CHR ''$'' then
             (case re_parse (butlast cs) of
                None \<Rightarrow> Inl Unmodelled_pattern
              | Some as \<Rightarrow> Inr (re_atoms_match as s))
           else Inl Unmodelled_pattern))"

section \<open>Scope authorizer of \<open>require_auth\<close> (auth/middleware.py, lines 134 to 189)\<close>

text \<open>
  The inner loop over \<open>user_scopes\<close> (lines 150 to 177) for one required scope of the form
  \<open>subsystem:permissions\<close>. The result is the value of \<open>matched\<close> when the loop ends.
\<close>

fun require_auth_user_loop ::
  "(string \<Rightarrow> string \<Rightarrow> exn + bool) \<Rightarrow> string \<Rightarrow> string list \<Rightarrow> string list \<Rightarrow> exn + bool" where
  "require_auth_user_loop re req_subsystem req_perms_list [] = Inr False"
| "require_auth_user_loop re req_subsystem req_perms_list (user_scope # rest) =
     (if CHR '':'' \<in> set user_scope then
        (let (user_subsystem, user_perms) = py_split1 CHR '':'' user_scope;
             user_perms_list = map py_strip (py_split CHR '','' user_perms)
         in case (if CHR ''*'' \<in> set req_subsystem
                  then re (''^'' @ replace_star req_subsystem @ ''$'') user_subsystem
                  else Inr (req_subsystem = user_subsystem)) of
              Inl e \<Rightarrow> Inl e
            | Inr subsystem_match \<Rightarrow>
                (if subsystem_match then
                   (if ''admin'' \<in> set user_perms_list then Inr True
                    else if list_all (\<lambda>perm. perm \<in> set user_perms_list) req_perms_list
                      then Inr True
                    else require_auth_user_loop re req_subsystem req_perms_list rest)
                 else require_auth_user_loop re req_subsystem req_perms_list rest))
      else require_auth_user_loop re req_subsystem req_perms_list rest)"

text \<open>The body of the loop over \<open>required_scopes\<close> up to line 181: the value of \<open>matched\<close>.\<close>

definition require_auth_matched ::
  "(string \<Rightarrow> string \<Rightarrow> exn + bool) \<Rightarrow> string \<Rightarrow> string list \<Rightarrow> exn + bool" where
  "require_auth_matched re required user_scopes =
     (if CHR '':'' \<in> set required then
        (let (req_subsystem, req_perms) = py_split1 CHR '':'' required;
             req_perms_list = map py_strip (py_split CHR '','' req_perms)
         in require_auth_user_loop re req_subsystem req_perms_list user_scopes)
      else Inr (required \<in> set user_scopes))"

text \<open>
  The loop over \<open>required_scopes\<close>: \<open>Inr False\<close> when some required scope is not matched
  (the 403 branch of line 183), \<open>Inr True\<close> when the loop runs to its end.
\<close>

fun require_auth_required_loop ::
  "(string \<Rightarrow> string \<Rightarrow> exn + bool) \<Rightarrow> string list \<Rightarrow> string list \<Rightarrow> exn + bool" where
  "require_auth_required_loop re [] user_scopes = Inr True"
| "require_auth_required_loop re (required # rest) user_scopes =
     (case require_auth_matched re required user_scopes of
        Inl e \<Rightarrow> Inl e
      | Inr matched \<Rightarrow>
          (if matched then require_auth_required_loop re rest user_scopes else Inr False))"

text \<open>
  Lines 134 to 189 as a whole: \<open>scopes\<close> is the decorator's argument and
  \<open>session_scopes\<close> is \<open>session.get('scopes', '')\<close>.
\<close>

definition require_auth_scopes ::
  "(string \<Rightarrow> string \<Rightarrow> exn + bool) \<Rightarrow> string option \<Rightarrow> string option \<Rightarrow> exn + bool" where
  "require_auth_scopes re scopes session_scopes =
     (case scopes of
        None \<Rightarrow> Inr True
      | Some sc \<Rightarrow>
          (if sc = [] then Inr True
           else
             (let required_scopes = map py_strip (py_split CHR '','' sc);
                  user_scopes =
                    (case session_scopes of
                       None \<Rightarrow> []
                     | Some ss \<Rightarrow> (if ss = [] then [] else map py_strip (py_split CHR '','' ss)))
              in require_auth_required_loop re required_scopes user_scopes)))"

section \<open>Scope authorizer of \<open>SessionDependency.__call__\<close> (auth/middleware.py, lines 311 to 362)\<close>

text \<open>The inner loop over \<open>user_scopes\<close> (lines 327 to 354).\<close>

fun SessionDependency_user_loop ::
  "(string \<Rightarrow> string \<Rightarrow> exn + bool) \<Rightarrow> string \<Rightarrow> string list \<Rightarrow> string list \<Rightarrow> exn + bool" where
  "SessionDependency_user_loop re req_subsystem req_perms_list [] = Inr False"
| "SessionDependency_user_loop re req_subsystem req_perms_list (user_scope # rest) =
     (if CHR '':'' \<in> set user_scope then
        (let (user_subsystem, user_perms) = py_split1 CHR '':'' user_scope;
             user_perms_list = map py_strip (py_split CHR '','' user_perms)
         in case (if CHR ''*'' \<in> set req_subsystem
                  then re (''^'' @ replace_star req_subsystem @ ''$'') user_subsystem
                  else Inr (req_subsystem = user_subsystem)) of
              Inl e \<Rightarrow> Inl e
            | Inr subsystem_match \<Rightarrow>
                (if subsystem_match then
                   (if ''admin'' \<in> set user_perms_list then Inr True
                    else if list_all (\<lambda>perm. perm \<in> set user_perms_list) req_perms_list
                      then Inr True
                    else SessionDependency_user_loop re req_subsystem req_perms_list rest)
                 else SessionDependency_user_loop re req_subsystem req_perms_list rest))
      else SessionDependency_user_loop re req_subsystem req_perms_list rest)"

text \<open>The body of the loop over \<open>required_scopes\<close> up to line 358: the value of \<open>matched\<close>.\<close>

definition SessionDependency_matched ::
  "(string \<Rightarrow> string \<Rightarrow> exn + bool) \<Rightarrow> string \<Rightarrow> string list \<Rightarrow> exn + bool" where
  "SessionDependency_matched re required user_scopes =
     (if CHR '':'' \<in> set required then
        (let (req_subsystem, req_perms) = py_split1 CHR '':'' required;
             req_perms_list = map py_strip (py_split CHR '','' req_perms)
         in SessionDependency_user_loop re req_subsystem req_perms_list user_scopes)
      else Inr (required \<in> set user_scopes))"

text \<open>The loop over \<open>required_scopes\<close>; \<open>Inr False\<close> is the 403 branch of line 360.\<close>

fun SessionDependency_required_loop ::
  "(string \<Rightarrow> string \<Rightarrow> exn + bool) \<Rightarrow> string list \<Rightarrow> string list \<Rightarrow> exn + bool" where
  "SessionDependency_required_loop re [] user_scopes = Inr True"
| "SessionDependency_required_loop re (required # rest) user_scopes =
     (case SessionDependency_matched re required user_scopes of
        Inl e \<Rightarrow> Inl e
      | Inr matched \<Rightarrow>
          (if matched then SessionDependency_required_loop re rest user_scopes else Inr False))"

text \<open>
  Lines 311 to 362 as a whole: \<open>scopes\<close> is \<open>self.scopes\<close> and \<open>session_scopes\<close> is
  \<open>session.get('scopes', '')\<close>.
\<close>

definition SessionDependency_scopes ::
  "(string \<Rightarrow> string \<Rightarrow> exn + bool) \<Rightarrow> string option \<Rightarrow> string option \<Rightarrow> exn + bool" where
  "SessionDependency_scopes re scopes session_scopes =
     (case scopes of
        None \<Rightarrow> Inr True
      | Some sc \<Rightarrow>
          (if sc = [] then Inr True
           else
             (let required_scopes = map py_strip (py_split CHR '','' sc);
                  user_scopes =
                    (case session_scopes of
                       None \<Rightarrow> []
                     | Some ss \<Rightarrow> (if ss = [] then [] else map py_strip (py_split CHR '','' ss)))
              in SessionDependency_required_loop re required_scopes user_scopes)))"

section \<open>Time and values\<close>

text \<open>
  A naive \<open>datetime\<close> is its number of microseconds on the time line, and
  \<open>timedelta(minutes=m)\<close> is \<open>m\<close> minutes in microseconds. The bounds of Python's
  \<open>datetime\<close> (years 1 to 9999) are not modelled: where the source raises
  \<open>OverflowError\<close> on a sum beyond year 9999, the sum here is the integer.
\<close>

type_synonym datetime = int

definition timedelta :: "int \<Rightarrow> int" where
  "timedelta minutes = minutes * 60000000"

text \<open>
  The values of the dictionaries handed to callers. \<open>PIso t\<close> is the string
  \<open>t.isoformat()\<close>; \<open>datetime.fromisoformat\<close> gives \<open>t\<close> back from it.
\<close>

datatype pyval = PNone | PStr string | PIso datetime

type_synonym view = "(string \<times> pyval) list"

fun of_optional_str :: "string option \<Rightarrow> pyval" where
  "of_optional_str None = PNone"
| "of_optional_str (Some s) = PStr s"

section \<open>JSONSessionStorage (auth/storage_json.py)\<close>

text \<open>
  One entry of the sessions file. The file keeps \<open>created_at\<close> and \<open>last_activity\<close>
  as the strings \<open>isoformat()\<close> wrote; the record holds the \<open>datetime\<close> they denote.
\<close>

record session =
  s_session_id :: string
  s_username :: string
  s_created_at :: datetime
  s_last_activity :: datetime
  s_scopes :: "string option"

text \<open>
  The dictionary that \<open>_read_sessions\<close> returns, in insertion order (an absent file
  reads as the empty dictionary).
\<close>

type_synonym sessions = "(string \<times> session) list"

definition JSON_ensure_table :: "sessions \<Rightarrow> sessions" where
  "JSON_ensure_table sessions = sessions"

definition JSON_create_session ::
  "string \<Rightarrow> string \<Rightarrow> datetime \<Rightarrow> datetime \<Rightarrow> string option \<Rightarrow> sessions \<Rightarrow> bool \<times> sessions" where
  "JSON_create_session session_id username created_at last_activity scopes sessions =
     (True, AList.update session_id
              \<lparr>s_session_id = session_id, s_username = username, s_created_at = created_at,
               s_last_activity = last_activity, s_scopes = scopes\<rparr> sessions)"

definition JSON_get_session :: "string \<Rightarrow> sessions \<Rightarrow> session option" where
  "JSON_get_session session_id sessions = map_of sessions session_id"

definition JSON_update_last_activity :: "string \<Rightarrow> datetime \<Rightarrow> sessions \<Rightarrow> bool \<times> sessions" where
  "JSON_update_last_activity session_id last_activity sessions =
     (if session_id \<in> set (map fst sessions)
      then (True, AList.map_entry session_id (\<lambda>s. s\<lparr>s_last_activity := last_activity\<rparr>) sessions)
      else (False, sessions))"

definition JSON_delete_session :: "string \<Rightarrow> sessions \<Rightarrow> bool \<times> sessions" where
  "JSON_delete_session session_id sessions =
     (if session_id \<in> set (map fst sessions)
      then (True, AList.delete session_id sessions)
      else (False, sessions))"

text \<open>
  \<open>age_minutes <= expiration_minutes\<close> with
  \<open>age_minutes = (now - last_activity).total_seconds() / 60\<close>, read in exact arithmetic.
  The source computes the two quotients in floating point, so for an age within a
  rounding error of the bound (ages of centuries, at microsecond distance from it) the
  source can count a session active that this comparison counts expired.
\<close>

definition age_within :: "datetime \<Rightarrow> datetime \<Rightarrow> int \<Rightarrow> bool" where
  "age_within now last_activity expiration_minutes =
     (now - last_activity \<le> expiration_minutes * 60000000)"

text \<open>The loop of \<open>count_active_sessions\<close> over \<open>sessions.values()\<close>.\<close>

fun JSON_count_loop :: "string \<Rightarrow> int \<Rightarrow> datetime \<Rightarrow> session list \<Rightarrow> int" where
  "JSON_count_loop username expiration_minutes now [] = 0"
| "JSON_count_loop username expiration_minutes now (session # rest) =
     (if s_username session \<noteq> username
        then JSON_count_loop username expiration_minutes now rest
      else if age_within now (s_last_activity session) expiration_minutes
        then 1 + JSON_count_loop username expiration_minutes now rest
      else JSON_count_loop username expiration_minutes now rest)"

definition JSON_count_active_sessions :: "string \<Rightarrow> int \<Rightarrow> datetime \<Rightarrow> sessions \<Rightarrow> int" where
  "JSON_count_active_sessions username expiration_minutes now sessions =
     JSON_count_loop username expiration_minutes now (map snd sessions)"

text \<open>
  The loop of \<open>get_oldest_session\<close> (lines 245 to 258). Once \<open>oldest\<close> is set, its
  \<open>last_activity\<close> is a \<open>datetime\<close> object (line 257), so for the next active session
  of the user \<open>datetime.fromisoformat(oldest['last_activity'])\<close> of line 253 raises
  \<open>TypeError\<close>: the argument is not a string.
\<close>

fun JSON_oldest_loop ::
  "string \<Rightarrow> int \<Rightarrow> datetime \<Rightarrow> session list \<Rightarrow> session option \<Rightarrow> exn + session option" where
  "JSON_oldest_loop username expiration_minutes now [] oldest = Inr oldest"
| "JSON_oldest_loop username expiration_minutes now (session # rest) oldest =
     (if s_username session \<noteq> username
        then JSON_oldest_loop username expiration_minutes now rest oldest
      else if age_within now (s_last_activity session) expiration_minutes then
        (case oldest of
           None \<Rightarrow> JSON_oldest_loop username expiration_minutes now rest (Some session)
         | Some previous \<Rightarrow> Inl TypeError)
      else JSON_oldest_loop username expiration_minutes now rest oldest)"

definition JSON_get_oldest_session ::
  "string \<Rightarrow> int \<Rightarrow> datetime \<Rightarrow> sessions \<Rightarrow> exn + session option" where
  "JSON_get_oldest_session username expiration_minutes now sessions =
     JSON_oldest_loop username expiration_minutes now (map snd sessions) None"

text \<open>
  \<open>get_all_sessions\<close>: the filter is skipped when \<open>username\<close> is \<open>None\<close> or empty.
\<close>

definition JSON_get_all_sessions :: "string option \<Rightarrow> sessions \<Rightarrow> session list" where
  "JSON_get_all_sessions username sessions =
     (case username of
        None \<Rightarrow> map snd sessions
      | Some u \<Rightarrow>
          (if u = [] then map snd sessions
           else filter (\<lambda>session. s_username session = u) (map snd sessions)))"

definition JSON_get_user_max_sessions :: "string \<Rightarrow> int" where
  "JSON_get_user_max_sessions username = 1"

section \<open>Session manager (auth/sessions.py)\<close>

text \<open>
  The storage is the default \<open>JSONSessionStorage\<close>. \<open>expiration_minutes\<close> is the value of
  \<open>_get_expiration_minutes()\<close>, \<open>uuid\<close> the string \<open>str(uuid.uuid4())\<close>, and every
  \<open>datetime.now()\<close> is a reading handed to the function.

  The eviction loop of \<open>create_session\<close> (lines 97 to 103). \<open>clock k\<close> is the reading of
  the \<open>k\<close>-th \<open>datetime.now()\<close> of the call; the loop returns the index of the next
  reading with the sessions left.
\<close>

function evict_loop ::
  "string \<Rightarrow> int \<Rightarrow> (nat \<Rightarrow> datetime) \<Rightarrow> int \<Rightarrow> int \<Rightarrow> nat \<Rightarrow> sessions \<Rightarrow> exn + (nat \<times> sessions)" where
  "evict_loop username expiration_minutes clock max_sessions active_sessions k sessions =
     (if active_sessions \<ge> max_sessions then
        (case JSON_get_oldest_session username expiration_minutes (clock k) sessions of
           Inl e \<Rightarrow> Inl e
         | Inr None \<Rightarrow> Inr (Suc k, sessions)
         | Inr (Some oldest_session) \<Rightarrow>
             evict_loop username expiration_minutes clock max_sessions (active_sessions - 1) (Suc k)
               (snd (JSON_delete_session (s_session_id oldest_session) sessions)))
      else Inr (k, sessions))"
  by pat_completeness auto
termination
  by (relation "measure (\<lambda>(username, expiration_minutes, clock, max_sessions, active_sessions, k, sessions).
                  nat (active_sessions - max_sessions + 1))") auto

definition create_session ::
  "string \<Rightarrow> string option \<Rightarrow> string \<Rightarrow> int \<Rightarrow> (nat \<Rightarrow> datetime) \<Rightarrow> sessions \<Rightarrow> exn + (view \<times> sessions)" where
  "create_session username scopes uuid expiration_minutes clock sessions =
     (let storage = JSON_ensure_table sessions;
          max_sessions = JSON_get_user_max_sessions username;
          active_sessions = JSON_count_active_sessions username expiration_minutes (clock 0) storage
      in case evict_loop username expiration_minutes clock max_sessions active_sessions 1 storage of
           Inl e \<Rightarrow> Inl e
         | Inr (k, storage') \<Rightarrow>
             (let session_id = uuid;
                  now = clock k
              in Inr ([(''session_id'', PStr session_id),
                       (''username'', PStr username),
                       (''created_at'', PIso now),
                       (''expires_at'', PIso (now + timedelta expiration_minutes)),
                       (''scopes'', of_optional_str scopes)],
                      snd (JSON_create_session session_id username now now scopes storage'))))"

text \<open>
  \<open>validate_session\<close>: \<open>now_check\<close> is the reading of line 159 and \<open>now_renew\<close> the one of line 164.
  \<open>others\<close> is what other requests do to the sessions file between the \<open>get_session\<close> of
  line 148 and the \<open>update_last_activity\<close> of line 165; it is the identity when the call
  runs alone. The result of \<open>update_last_activity\<close> is not looked at (line 165).
\<close>

definition validate_session ::
  "string \<Rightarrow> bool \<Rightarrow> int \<Rightarrow> datetime \<Rightarrow> datetime \<Rightarrow> (sessions \<Rightarrow> sessions) \<Rightarrow> sessions
     \<Rightarrow> view option \<times> sessions" where
  "validate_session session_id renew expiration_minutes now_check now_renew others sessions =
     (case JSON_get_session session_id sessions of
        None \<Rightarrow> (None, sessions)
      | Some session \<Rightarrow>
          (if now_check > s_last_activity session + timedelta expiration_minutes then (None, sessions)
           else
             (let (last_activity, sessions') =
                    (if renew
                     then (now_renew, snd (JSON_update_last_activity session_id now_renew (others sessions)))
                     else (s_last_activity session, sessions))
              in (Some [(''session_id'', PStr (s_session_id session)),
                        (''username'', PStr (s_username session)),
                        (''created_at'', PIso (s_created_at session)),
                        (''last_activity'', PIso last_activity),
                        (''expires_at'', PIso (last_activity + timedelta expiration_minutes)),
                        (''scopes'', of_optional_str (s_scopes session))],
                  sessions'))))"

text \<open>A call that leaves \<open>renew\<close> out takes the default of the signature, \<open>renew: bool = True\<close>.\<close>

definition validate_session_default ::
  "string \<Rightarrow> int \<Rightarrow> datetime \<Rightarrow> datetime \<Rightarrow> (sessions \<Rightarrow> sessions) \<Rightarrow> sessions \<Rightarrow> view option \<times> sessions" where
  "validate_session_default session_id = validate_session session_id True"

text \<open>
  The loop of \<open>get_active_sessions\<close> (lines 264 to 274); \<open>clock i\<close> is the reading of
  \<open>datetime.now()\<close> for the \<open>i\<close>-th session.
\<close>

fun get_active_loop :: "int \<Rightarrow> (nat \<Rightarrow> datetime) \<Rightarrow> nat \<Rightarrow> session list \<Rightarrow> view list" where
  "get_active_loop expiration_minutes clock i [] = []"
| "get_active_loop expiration_minutes clock i (session # rest) =
     (let last_activity = s_last_activity session
      in if clock i \<le> last_activity + timedelta expiration_minutes
         then [(''session_id'', PStr (s_session_id session)),
               (''username'', PStr (s_username session)),
               (''created_at'', PIso (s_created_at session)),
               (''last_activity'', PIso (s_last_activity session)),
               (''expires_at'', PIso (last_activity + timedelta expiration_minutes)),
               (''scopes'', of_optional_str (s_scopes session))]
              # get_active_loop expiration_minutes clock (Suc i) rest
         else get_active_loop expiration_minutes clock (Suc i) rest)"

definition get_active_sessions ::
  "string option \<Rightarrow> int \<Rightarrow> (nat \<Rightarrow> datetime) \<Rightarrow> sessions \<Rightarrow> view list" where
  "get_active_sessions username expiration_minutes clock sessions =
     get_active_loop expiration_minutes clock 0 (JSON_get_all_sessions username sessions)"

section \<open>Request guard (auth/middleware.py)\<close>

text \<open>
  What the guard reads of a request object: whether it has the attributes \<open>headers\<close>,
  \<open>cookies\<close> and \<open>json\<close>, the value of \<open>request.headers.get('Authorization')\<close> and the
  value of \<open>request.cookies.get('Sesion_Auth')\<close>.
\<close>

record request =
  has_headers :: bool
  authorization :: "string option"
  has_cookies :: bool
  sesion_auth :: "string option"
  has_json :: bool

text \<open>
  What the wrapper of \<open>require_auth\<close> returns: the pair \<open>(jsonify({'error': ...}), status)\<close>
  of the Flask branches, or the result of \<open>func\<close> called with \<open>kwargs['session']\<close> set.
  The messages are left out; \<open>HTTPException\<close> carries its \<open>status_code\<close>.
\<close>

datatype response = Json_error nat | Call_func view

text \<open>\<open>session.get('scopes', '')\<close> as an optional string.\<close>

definition view_scopes :: "view \<Rightarrow> string option" where
  "view_scopes session =
     (case map_of session ''scopes'' of
        Some (PStr s) \<Rightarrow> Some s
      | _ \<Rightarrow> None)"

text \<open>
  The two ways the wrapper rejects a request: \<open>hasattr(request, 'json')\<close> chooses between
  the Flask pair and the FastAPI exception. The Flask pair is what \<open>jsonify\<close> returns
  inside a Flask application context; outside one \<open>jsonify\<close> raises \<open>RuntimeError\<close>, which
  is not modelled.
\<close>

definition reject :: "request option \<Rightarrow> nat \<Rightarrow> exn + response" where
  "reject request status =
     (case request of
        None \<Rightarrow> Inl (HTTPException status)
      | Some r \<Rightarrow> (if has_json r then Inr (Json_error status) else Inl (HTTPException status)))"

text \<open>
  The wrapper of \<open>require_auth(scopes)\<close>, lines 74 to 195. \<open>request\<close> is the request
  object found in \<open>args\<close> or \<open>kwargs\<close> (lines 76 to 83), \<open>None\<close> when there is none.
\<close>

definition require_auth ::
  "(string \<Rightarrow> string \<Rightarrow> exn + bool) \<Rightarrow> string option \<Rightarrow> request option
     \<Rightarrow> int \<Rightarrow> datetime \<Rightarrow> datetime \<Rightarrow> (sessions \<Rightarrow> sessions) \<Rightarrow> sessions
     \<Rightarrow> (exn + response) \<times> sessions" where
  "require_auth re scopes request expiration_minutes now_check now_renew others sessions =
     (let auth_header =
            (case request of
               None \<Rightarrow> None
             | Some r \<Rightarrow> (if has_headers r then authorization r else None))
      in case (if truthy auth_header then
                 (case py_words (case auth_header of None \<Rightarrow> [] | Some h \<Rightarrow> h) of
                    [p0, p1] \<Rightarrow> (if py_lower p0 = ''bearer'' then Inr (Some p1) else Inl ())
                  | _ \<Rightarrow> Inl ())
               else Inr None) of
           Inl _ \<Rightarrow> (reject request 401, sessions)
         | Inr from_header \<Rightarrow>
             (let session_id =
                    (if truthy from_header then from_header
                     else (case request of
                             None \<Rightarrow> from_header
                           | Some r \<Rightarrow> (if has_cookies r then sesion_auth r else from_header)))
              in case session_id of
                   None \<Rightarrow> (reject request 401, sessions)
                 | Some sid \<Rightarrow>
                     (if sid = [] then (reject request 401, sessions)
                      else
                        (case validate_session sid True expiration_minutes now_check now_renew others sessions of
                           (None, sessions') \<Rightarrow> (reject request 401, sessions')
                         | (Some session, sessions') \<Rightarrow>
                             (case require_auth_scopes re scopes (view_scopes session) of
                                Inl e \<Rightarrow> (Inl e, sessions')
                              | Inr authorized \<Rightarrow>
                                  (if authorized then (Inr (Call_func session), sessions')
                                   else (reject request 403, sessions')))))))"

text \<open>\<open>get_session_from_request\<close>, lines 229 to 248.\<close>

definition get_session_from_request ::
  "request \<Rightarrow> int \<Rightarrow> datetime \<Rightarrow> datetime \<Rightarrow> (sessions \<Rightarrow> sessions) \<Rightarrow> sessions
     \<Rightarrow> view option \<times> sessions" where
  "get_session_from_request request expiration_minutes now_check now_renew others sessions =
     (if \<not> has_headers request then (None, sessions)
      else
        (let auth_header = authorization request;
             from_header =
               (if truthy auth_header then
                  (case py_words (case auth_header of None \<Rightarrow> [] | Some h \<Rightarrow> h) of
                     [p0, p1] \<Rightarrow> (if py_lower p0 = ''bearer'' then Some p1 else None)
                   | _ \<Rightarrow> None)
                else None);
             session_id =
               (if truthy from_header then from_header
                else if has_cookies request then sesion_auth request
                else from_header)
         in case session_id of
              None \<Rightarrow> (None, sessions)
            | Some sid \<Rightarrow>
                (if sid = [] then (None, sessions)
                 else validate_session sid True expiration_minutes now_check now_renew others sessions)))"

text \<open>\<open>SessionDependency(scopes).__call__(request)\<close>, lines 277 to 364.\<close>

definition SessionDependency_call ::
  "(string \<Rightarrow> string \<Rightarrow> exn + bool) \<Rightarrow> string option \<Rightarrow> request
     \<Rightarrow> int \<Rightarrow> datetime \<Rightarrow> datetime \<Rightarrow> (sessions \<Rightarrow> sessions) \<Rightarrow> sessions
     \<Rightarrow> (exn + view) \<times> sessions" where
  "SessionDependency_call re scopes request expiration_minutes now_check now_renew others sessions =
     (let auth_header = (if has_headers request then authorization request else None)
      in case (if truthy auth_header then
                 (case py_words (case auth_header of None \<Rightarrow> [] | Some h \<Rightarrow> h) of
                    [p0, p1] \<Rightarrow> (if py_lower p0 = ''bearer'' then Inr (Some p1) else Inl ())
                  | _ \<Rightarrow> Inl ())
               else Inr None) of
           Inl _ \<Rightarrow> (Inl (HTTPException 401), sessions)
         | Inr from_header \<Rightarrow>
             (let session_id =
                    (if truthy from_header then from_header
                     else if has_cookies request then sesion_auth request
                     else from_header)
              in case session_id of
                   None \<Rightarrow> (Inl (HTTPException 401), sessions)
                 | Some sid \<Rightarrow>
                     (if sid = [] then (Inl (HTTPException 401), sessions)
                      else
                        (case validate_session sid True expiration_minutes now_check now_renew others sessions of
                           (None, sessions') \<Rightarrow> (Inl (HTTPException 401), sessions')
                         | (Some session, sessions') \<Rightarrow>
                             (case SessionDependency_scopes re scopes (view_scopes session) of
                                Inl e \<Rightarrow> (Inl e, sessions')
                              | Inr authorized \<Rightarrow>
                                  (if authorized then (Inr session, sessions')
                                   else (Inl (HTTPException 403), sessions')))))))"

section \<open>Properties of the stored sessions and of the views\<close>

text \<open>Every entry of the sessions file is stored under its own \<open>session_id\<close>.\<close>

definition keys_agree :: "sessions \<Rightarrow> bool" where
  "keys_agree sessions = list_all (\<lambda>(k, s). s_session_id s = k) sessions"

text \<open>
  The active sessions of a user at time \<open>now\<close>, as the storage counts them: the entries
  of the user whose age is within the timeout.
\<close>

definition active_rows :: "string \<Rightarrow> int \<Rightarrow> datetime \<Rightarrow> session list \<Rightarrow> session list" where
  "active_rows username expiration_minutes now rows =
     filter (\<lambda>s. s_username s = username \<and> age_within now (s_last_activity s) expiration_minutes)
       rows"

text \<open>The field \<open>k\<close> of a view is an ISO-8601 string.\<close>

definition iso_field :: "view \<Rightarrow> string \<Rightarrow> bool" where
  "iso_field v k = (case map_of v k of Some (PIso t) \<Rightarrow> True | _ \<Rightarrow> False)"

text \<open>The field \<open>k\<close> of a view is a string.\<close>

definition str_field :: "view \<Rightarrow> string \<Rightarrow> bool" where
  "str_field v k = (case map_of v k of Some (PStr s) \<Rightarrow> True | _ \<Rightarrow> False)"

text \<open>The field \<open>scopes\<close> of a view is a string or \<open>None\<close>.\<close>

definition scopes_field :: "view \<Rightarrow> bool" where
  "scopes_field v =
     (case map_of v ''scopes'' of Some (PStr s) \<Rightarrow> True | Some PNone \<Rightarrow> True | _ \<Rightarrow> False)"

section \<open>The credential of a request\<close>

text \<open>
  What section 6 of the specification asks of the request guard: the token of an
  \<open>Authorization: Bearer <token>\<close> header, with a named cookie to fall back on, and no
  validation at all for a request whose credential is missing or malformed.

  \<open>bearer_token\<close> is the token of a header value of the form \<open>Bearer <token>\<close>: two
  words, the first of them \<open>bearer\<close> in any case.
\<close>

definition bearer_token :: "string \<Rightarrow> string option" where
  "bearer_token h =
     (case py_words h of
        [p0, p1] \<Rightarrow> (if py_lower p0 = ''bearer'' then Some p1 else None)
      | _ \<Rightarrow> None)"

text \<open>The value of the cookie \<open>Sesion_Auth\<close>, when the request has cookies and it is not empty.\<close>

definition cookie_token :: "request \<Rightarrow> string option" where
  "cookie_token r =
     (if has_cookies r
      then (case sesion_auth r of
              None \<Rightarrow> None
            | Some c \<Rightarrow> (if c = [] then None else Some c))
      else None)"

text \<open>
  The credential of a request: the token of the header when there is a header (none when
  the header is malformed), and the cookie when there is no header.
\<close>

definition guard_token :: "request \<Rightarrow> string option" where
  "guard_token r =
     (case (if has_headers r then authorization r else None) of
        None \<Rightarrow> cookie_token r
      | Some h \<Rightarrow> (if h = [] then cookie_token r else bearer_token h))"

text \<open>
  The credential of a request that has headers, when a malformed header is passed over
  in favour of the cookie.
\<close>

definition lenient_token :: "request \<Rightarrow> string option" where
  "lenient_token r =
     (if has_headers r then
        (case (case authorization r of
                 None \<Rightarrow> None
               | Some h \<Rightarrow> (if h = [] then None else bearer_token h)) of
           None \<Rightarrow> cookie_token r
         | Some t \<Rightarrow> Some t)
      else None)"

section \<open>Example data\<close>

text \<open>
  A stored session of \<open>alice\<close> with \<open>last_activity\<close> at time 0, and two requests that
  carry its \<open>session_id\<close>: with the header \<open>Authorization: bearer  s1\<close> (lower case, two
  blanks), and with the cookie \<open>Sesion_Auth=s1\<close> and no header. Two stored sessions of
  \<open>bob\<close>, with \<open>last_activity\<close> at times 0 and 1.
\<close>

abbreviation (input) alice_s1 :: session where
  "alice_s1 \<equiv>
     \<lparr>s_session_id = ''s1'', s_username = ''alice'', s_created_at = 0, s_last_activity = 0,
      s_scopes = None\<rparr>"

abbreviation (input) lower_bearer_s1 :: request where
  "lower_bearer_s1 \<equiv>
     \<lparr>has_headers = True, authorization = Some ''bearer  s1'', has_cookies = False,
      sesion_auth = None, has_json = False\<rparr>"

abbreviation (input) cookie_s1 :: request where
  "cookie_s1 \<equiv>
     \<lparr>has_headers = True, authorization = None, has_cookies = True,
      sesion_auth = Some ''s1'', has_json = False\<rparr>"

abbreviation (input) bob_s1 :: session where
  "bob_s1 \<equiv>
     \<lparr>s_session_id = ''s1'', s_username = ''bob'', s_created_at = 0, s_last_activity = 0,
      s_scopes = None\<rparr>"

abbreviation (input) bob_s2 :: session where
  "bob_s2 \<equiv>
     \<lparr>s_session_id = ''s2'', s_username = ''bob'', s_created_at = 1, s_last_activity = 1,
      s_scopes = None\<rparr>"

section \<open>The scope authorizer\<close>

lemmas scope_eval = require_auth_scopes_def require_auth_matched_def
  SessionDependency_scopes_def SessionDependency_matched_def
  py_split1_def py_strip_def is_space_def replace_star_def

lemma SessionDependency_user_loop_eq:
  "SessionDependency_user_loop re req_subsystem req_perms_list user_scopes =
   require_auth_user_loop re req_subsystem req_perms_list user_scopes"
  by (induction user_scopes)
     (simp_all add: Let_def cong: if_cong sum.case_cong prod.case_cong)

lemma SessionDependency_matched_eq:
  "SessionDependency_matched re required user_scopes = require_auth_matched re required user_scopes"
  by (simp add: SessionDependency_matched_def require_auth_matched_def SessionDependency_user_loop_eq)

lemma SessionDependency_required_loop_eq:
  "SessionDependency_required_loop re required_scopes user_scopes =
   require_auth_required_loop re required_scopes user_scopes"
  by (induction required_scopes)
     (simp_all add: SessionDependency_matched_eq cong: if_cong sum.case_cong)

text \<open>
  C1. The claim: required \<open>billing:read,write\<close> against granted \<open>billing:admin\<close> is
  authorized, and against granted \<open>billing:read\<close> it is not. The code, at both call
  sites, first splits the required string at every comma (lines 137 and 313), so the
  required scopes are \<open>billing:read\<close> and the bare \<open>write\<close>; \<open>billing:admin\<close> satisfies the
  first and nothing satisfies the second, and the request is refused with 403. The
  matching of one required scope does what the claim says when it is given the unsplit
  \<open>billing:read,write\<close>: \<open>admin\<close> in the granted permissions matches it. Against granted
  \<open>billing:read\<close> the request is refused, as the claim says.
\<close>

theorem C1_admin_refused_after_comma_split:
  "require_auth_scopes re (Some ''billing:read,write'') (Some ''billing:admin'') = Inr False
   \<and> SessionDependency_scopes re (Some ''billing:read,write'') (Some ''billing:admin'') = Inr False
   \<and> require_auth_matched re ''billing:read,write'' [''billing:admin''] = Inr True
   \<and> SessionDependency_matched re ''billing:read,write'' [''billing:admin''] = Inr True
   \<and> require_auth_scopes re (Some ''billing:read,write'') (Some ''billing:read'') = Inr False
   \<and> SessionDependency_scopes re (Some ''billing:read,write'') (Some ''billing:read'') = Inr False"
  by (simp add: scope_eval)

lemma py_split_no_sep: "sep \<notin> set s \<Longrightarrow> py_split sep s = [s]"
  by (induction s) auto

text \<open>
  On the pieces that the code cuts the two strings into, a required scope without a colon
  is matched exactly when it is one of the granted pieces without a colon.
\<close>

lemma bare_required_scope_on_pieces:
  assumes "CHR '':'' \<notin> set R"
  shows "require_auth_matched re R user_scopes
           = Inr (R \<in> set (filter (\<lambda>G. CHR '':'' \<notin> set G) user_scopes))
         \<and> SessionDependency_matched re R user_scopes
           = Inr (R \<in> set (filter (\<lambda>G. CHR '':'' \<notin> set G) user_scopes))"
  using assms by (auto simp: require_auth_matched_def SessionDependency_matched_def)


text \<open>
  C6. Required \<open>orders-*:read\<close> against granted \<open>orders-eu:read\<close> is authorized: the
  pattern handed to \<open>re.match\<close> is \<open>^orders-.*$\<close> and it matches \<open>orders-eu\<close>. Against
  granted \<open>invoices:read\<close> the request is refused. Both call sites.
\<close>

theorem C6_wildcard_subsystem:
  "''^'' @ replace_star ''orders-*'' @ ''$'' = ''^orders-.*$''
   \<and> re_match ''^orders-.*$'' ''orders-eu'' = Inr True
   \<and> re_match ''^orders-.*$'' ''invoices'' = Inr False
   \<and> require_auth_scopes re_match (Some ''orders-*:read'') (Some ''orders-eu:read'') = Inr True
   \<and> SessionDependency_scopes re_match (Some ''orders-*:read'') (Some ''orders-eu:read'') = Inr True
   \<and> require_auth_scopes re_match (Some ''orders-*:read'') (Some ''invoices:read'') = Inr False
   \<and> SessionDependency_scopes re_match (Some ''orders-*:read'') (Some ''invoices:read'') = Inr False"
  by (simp add: scope_eval re_match_def re_special_def)

text \<open>
  C7. For every required scopes argument and every granted scopes string, and whatever
  \<open>re.match\<close> returns or raises, the scope check of \<open>SessionDependency.__call__\<close> and the
  scope check of the \<open>require_auth\<close> decorator come to the same decision.
\<close>

theorem C7_call_sites_agree:
  "SessionDependency_scopes re scopes session_scopes = require_auth_scopes re scopes session_scopes"
  by (simp add: SessionDependency_scopes_def require_auth_scopes_def
        SessionDependency_required_loop_eq cong: if_cong option.case_cong)

section \<open>Validation of a session\<close>

lemmas store_eval = JSON_get_session_def JSON_update_last_activity_def JSON_delete_session_def
  JSON_create_session_def timedelta_def

text \<open>
  C3. The claim: when the session is found and unexpired and the update of
  \<open>last_activity\<close> returns false (the record is gone), \<open>validate_session(id, renew=True)\<close>
  returns \<open>None\<close>. The code does not look at what \<open>update_last_activity\<close> returns: here
  another request deletes session \<open>s1\<close> between the read and the update, the update
  returns false, and the call still returns a view.
\<close>

theorem C3_update_false_still_a_view:
  "JSON_get_session ''s1'' [(''s1'', alice_s1)] = Some alice_s1
   \<and> \<not> 5 > s_last_activity alice_s1 + timedelta 30
   \<and> fst (JSON_update_last_activity ''s1'' 6
            ((snd \<circ> JSON_delete_session ''s1'') [(''s1'', alice_s1)])) = False
   \<and> fst (validate_session ''s1'' True 30 5 6 (snd \<circ> JSON_delete_session ''s1'')
            [(''s1'', alice_s1)]) \<noteq> None"
  by (simp add: validate_session_def store_eval AList.delete_eq)

text \<open>
  C3, as the code has it: when the session is found and unexpired and the update of
  \<open>last_activity\<close> returns false, \<open>validate_session(id, renew=True)\<close> returns the view of
  the session that was read, with \<open>last_activity\<close> the time of the renewal and
  \<open>expires_at\<close> computed from it, and writes nothing.
\<close>

theorem C3_update_result_ignored:
  assumes "JSON_get_session session_id sessions = Some session"
    and "\<not> now_check > s_last_activity session + timedelta expiration_minutes"
    and "fst (JSON_update_last_activity session_id now_renew (others sessions)) = False"
  shows "validate_session session_id True expiration_minutes now_check now_renew others sessions =
           (Some [(''session_id'', PStr (s_session_id session)),
                  (''username'', PStr (s_username session)),
                  (''created_at'', PIso (s_created_at session)),
                  (''last_activity'', PIso now_renew),
                  (''expires_at'', PIso (now_renew + timedelta expiration_minutes)),
                  (''scopes'', of_optional_str (s_scopes session))],
            others sessions)"
  using assms by (simp add: validate_session_def JSON_update_last_activity_def split: if_splits)

theorem C3_update_result_ignored_witness:
  "JSON_get_session ''s1'' [(''s1'', alice_s1)] = Some alice_s1
   \<and> \<not> 5 > s_last_activity alice_s1 + timedelta 30
   \<and> fst (JSON_update_last_activity ''s1'' 6
            ((snd \<circ> JSON_delete_session ''s1'') [(''s1'', alice_s1)])) = False
   \<and> validate_session ''s1'' True 30 5 6 (snd \<circ> JSON_delete_session ''s1'') [(''s1'', alice_s1)] =
        (Some [(''session_id'', PStr ''s1''), (''username'', PStr ''alice''),
               (''created_at'', PIso 0), (''last_activity'', PIso 6),
               (''expires_at'', PIso 1800000006), (''scopes'', PNone)],
         [])"
proof -
  let ?row = "alice_s1"
  have a: "JSON_get_session ''s1'' [(''s1'', ?row)] = Some ?row"
    by (simp add: store_eval)
  have b: "\<not> 5 > s_last_activity ?row + timedelta 30"
    by (simp add: timedelta_def)
  have c: "fst (JSON_update_last_activity ''s1'' 6
             ((snd \<circ> JSON_delete_session ''s1'') [(''s1'', ?row)])) = False"
    by (simp add: store_eval AList.delete_eq)
  show ?thesis
    using a b c
      C3_update_result_ignored [where others = "snd \<circ> JSON_delete_session ''s1''"
        and sessions = "[(''s1'', ?row)]" and now_renew = 6, OF a b c]
    by (simp add: store_eval AList.delete_eq)
qed

text \<open>
  C5. \<open>validate_session(id, renew=False)\<close> leaves the stored sessions as they were, so
  any number of such calls leaves \<open>last_activity\<close> unchanged; the view it returns carries
  the stored \<open>last_activity\<close> and the \<open>expires_at\<close> computed from it.
\<close>

theorem C5_peek_is_read_only:
  "snd (validate_session session_id False expiration_minutes now_check now_renew others sessions)
     = sessions
   \<and> snd (validate_session session_id False expiration_minutes now_check' now_renew' others'
           (snd (validate_session session_id False expiration_minutes now_check now_renew
                   others sessions))) = sessions
   \<and> (\<forall>v. fst (validate_session session_id False expiration_minutes now_check now_renew
                  others sessions) = Some v \<longrightarrow>
         (\<exists>session. JSON_get_session session_id sessions = Some session
            \<and> map_of v ''last_activity'' = Some (PIso (s_last_activity session))
            \<and> map_of v ''expires_at''
                = Some (PIso (s_last_activity session + timedelta expiration_minutes))))"
  by (auto simp: validate_session_def split: option.splits if_splits)

theorem C5_peek_is_read_only_witness:
  "fst (validate_session ''s1'' False 30 5 6 id [(''s1'', alice_s1)])
     = Some [(''session_id'', PStr ''s1''), (''username'', PStr ''alice''),
             (''created_at'', PIso 0), (''last_activity'', PIso 0),
             (''expires_at'', PIso 1800000000), (''scopes'', PNone)]
   \<and> snd (validate_session ''s1'' False 30 5 6 id [(''s1'', alice_s1)]) = [(''s1'', alice_s1)]
   \<and> (\<exists>session. JSON_get_session ''s1'' [(''s1'', alice_s1)] = Some session
         \<and> s_last_activity session = 0)"
  using C5_peek_is_read_only [of "''s1''" 30 5 6 id "[(''s1'', alice_s1)]"]
  by (simp add: validate_session_def store_eval)

text \<open>
  C9. \<open>validate_session\<close> returns \<open>None\<close>, and writes nothing, both when the
  \<open>session_id\<close> is not in the storage and when the session is there and its expiry
  (\<open>last_activity\<close> plus the timeout) has passed: the two results are the same.
\<close>

theorem C9_expired_as_absent:
  "(JSON_get_session session_id sessions = None \<longrightarrow>
      validate_session session_id renew expiration_minutes now_check now_renew others sessions
        = (None, sessions))
   \<and> (\<forall>session. JSON_get_session session_id sessions = Some session
          \<and> now_check > s_last_activity session + timedelta expiration_minutes \<longrightarrow>
      validate_session session_id renew expiration_minutes now_check now_renew others sessions
        = (None, sessions))"
  by (auto simp: validate_session_def)

theorem C9_expired_as_absent_witness:
  "JSON_get_session ''s2'' [(''s1'', alice_s1)] = None
   \<and> validate_session ''s2'' True 30 5 6 id [(''s1'', alice_s1)] = (None, [(''s1'', alice_s1)])
   \<and> JSON_get_session ''s1'' [(''s1'', alice_s1)] = Some alice_s1
   \<and> 1800000001 > s_last_activity alice_s1 + timedelta 30
   \<and> validate_session ''s1'' True 30 1800000001 1800000002 id [(''s1'', alice_s1)]
        = (None, [(''s1'', alice_s1)])"
  using C9_expired_as_absent [of "''s2''" "[(''s1'', alice_s1)]" True 30 5 6 id]
        C9_expired_as_absent [of "''s1''" "[(''s1'', alice_s1)]" True 30 1800000001 1800000002 id]
  by (simp add: store_eval)

section \<open>The views handed to callers\<close>

lemma six_fields:
  assumes "v = [(''session_id'', PStr a), (''username'', PStr b), (''created_at'', PIso c),
                (''last_activity'', PIso d), (''expires_at'', PIso e),
                (''scopes'', of_optional_str f)]"
  shows "map fst v = [''session_id'', ''username'', ''created_at'', ''last_activity'',
                      ''expires_at'', ''scopes'']
    \<and> str_field v ''session_id'' \<and> str_field v ''username'' \<and> iso_field v ''created_at''
    \<and> iso_field v ''last_activity'' \<and> iso_field v ''expires_at'' \<and> scopes_field v"
  using assms by (cases f) (simp_all add: str_field_def iso_field_def scopes_field_def)

lemma five_fields:
  assumes "v = [(''session_id'', PStr a), (''username'', PStr b), (''created_at'', PIso c),
                (''expires_at'', PIso e), (''scopes'', of_optional_str f)]"
  shows "map fst v = [''session_id'', ''username'', ''created_at'', ''expires_at'', ''scopes'']
    \<and> str_field v ''session_id'' \<and> str_field v ''username'' \<and> iso_field v ''created_at''
    \<and> iso_field v ''expires_at'' \<and> scopes_field v"
  using assms by (cases f) (simp_all add: str_field_def iso_field_def scopes_field_def)

lemma create_session_view:
  assumes "create_session username scopes uuid expiration_minutes clock sessions = Inr (v, sessions')"
  shows "\<exists>now. v = [(''session_id'', PStr uuid), (''username'', PStr username),
                     (''created_at'', PIso now),
                     (''expires_at'', PIso (now + timedelta expiration_minutes)),
                     (''scopes'', of_optional_str scopes)]"
  using assms by (auto simp: create_session_def Let_def split: sum.splits prod.splits)

lemma validate_session_view:
  assumes "fst (validate_session session_id renew expiration_minutes now_check now_renew
                  others sessions) = Some v"
  shows "\<exists>a b c d e f. v = [(''session_id'', PStr a), (''username'', PStr b),
                (''created_at'', PIso c), (''last_activity'', PIso d), (''expires_at'', PIso e),
                (''scopes'', of_optional_str f)]"
  using assms by (auto simp: validate_session_def Let_def split: option.splits if_splits)

lemma get_active_loop_view:
  assumes "v \<in> set (get_active_loop expiration_minutes clock i rows)"
  shows "\<exists>a b c d e f. v = [(''session_id'', PStr a), (''username'', PStr b),
                (''created_at'', PIso c), (''last_activity'', PIso d), (''expires_at'', PIso e),
                (''scopes'', of_optional_str f)]"
  using assms
proof (induction rows arbitrary: i)
  case Nil
  then show ?case by simp
next
  case (Cons row rows)
  then show ?case by (auto simp: Let_def split: if_splits)
qed

text \<open>
  C8. The claim: every view returned by \<open>create_session\<close>, \<open>validate_session\<close> and
  \<open>get_active_sessions\<close> has exactly the fields \<open>session_id\<close>, \<open>username\<close>,
  \<open>created_at\<close>, \<open>last_activity\<close>, \<open>expires_at\<close> and \<open>scopes\<close>. The view of
  \<open>create_session\<close> has no \<open>last_activity\<close>: its fields are the five below.
\<close>

theorem C8_create_view_lacks_last_activity:
  "map_sum id (map fst \<circ> fst) (create_session ''alice'' None ''id1'' 30 int [])
     = Inr [''session_id'', ''username'', ''created_at'', ''expires_at'', ''scopes'']
   \<and> ''last_activity'' \<notin> set [''session_id'', ''username'', ''created_at'', ''expires_at'',
                                ''scopes'']"
  by (simp add: create_session_def JSON_ensure_table_def JSON_get_user_max_sessions_def
        JSON_count_active_sessions_def JSON_create_session_def Let_def)

text \<open>
  C8, as the code has it: every view returned by \<open>validate_session\<close> and by
  \<open>get_active_sessions\<close> has exactly the fields \<open>session_id\<close>, \<open>username\<close>, \<open>created_at\<close>,
  \<open>last_activity\<close>, \<open>expires_at\<close> and \<open>scopes\<close>; the view returned by \<open>create_session\<close> has
  exactly \<open>session_id\<close>, \<open>username\<close>, \<open>created_at\<close>, \<open>expires_at\<close> and \<open>scopes\<close>. In all of
  them the timestamps are ISO-8601 strings and \<open>scopes\<close> is a string or \<open>None\<close>.
\<close>

theorem C8_view_fields:
  "(\<forall>v sessions'.
       create_session username scopes uuid expiration_minutes clock sessions = Inr (v, sessions') \<longrightarrow>
       map fst v = [''session_id'', ''username'', ''created_at'', ''expires_at'', ''scopes'']
       \<and> str_field v ''session_id'' \<and> str_field v ''username'' \<and> iso_field v ''created_at''
       \<and> iso_field v ''expires_at'' \<and> scopes_field v)
   \<and> (\<forall>v. fst (validate_session session_id renew expiration_minutes now_check now_renew
                  others sessions) = Some v \<longrightarrow>
       map fst v = [''session_id'', ''username'', ''created_at'', ''last_activity'',
                    ''expires_at'', ''scopes'']
       \<and> str_field v ''session_id'' \<and> str_field v ''username'' \<and> iso_field v ''created_at''
       \<and> iso_field v ''last_activity'' \<and> iso_field v ''expires_at'' \<and> scopes_field v)
   \<and> (\<forall>v \<in> set (get_active_sessions filter_username expiration_minutes clock' sessions).
       map fst v = [''session_id'', ''username'', ''created_at'', ''last_activity'',
                    ''expires_at'', ''scopes'']
       \<and> str_field v ''session_id'' \<and> str_field v ''username'' \<and> iso_field v ''created_at''
       \<and> iso_field v ''last_activity'' \<and> iso_field v ''expires_at'' \<and> scopes_field v)"
proof (intro conjI allI impI ballI)
  fix v sessions'
  assume "create_session username scopes uuid expiration_minutes clock sessions = Inr (v, sessions')"
  from create_session_view [OF this] obtain now where
    "v = [(''session_id'', PStr uuid), (''username'', PStr username), (''created_at'', PIso now),
          (''expires_at'', PIso (now + timedelta expiration_minutes)),
          (''scopes'', of_optional_str scopes)]"
    by blast
  from five_fields [OF this]
  show "map fst v = [''session_id'', ''username'', ''created_at'', ''expires_at'', ''scopes'']"
    "str_field v ''session_id''" "str_field v ''username''" "iso_field v ''created_at''"
    "iso_field v ''expires_at''" "scopes_field v"
    by blast+
next
  fix v
  assume "fst (validate_session session_id renew expiration_minutes now_check now_renew
                 others sessions) = Some v"
  from validate_session_view [OF this] obtain a b c d e f where
    "v = [(''session_id'', PStr a), (''username'', PStr b), (''created_at'', PIso c),
          (''last_activity'', PIso d), (''expires_at'', PIso e), (''scopes'', of_optional_str f)]"
    by blast
  from six_fields [OF this]
  show "map fst v = [''session_id'', ''username'', ''created_at'', ''last_activity'',
                     ''expires_at'', ''scopes'']"
    "str_field v ''session_id''" "str_field v ''username''" "iso_field v ''created_at''"
    "iso_field v ''last_activity''" "iso_field v ''expires_at''" "scopes_field v"
    by blast+
next
  fix v
  assume "v \<in> set (get_active_sessions filter_username expiration_minutes clock' sessions)"
  then have "v \<in> set (get_active_loop expiration_minutes clock' 0
                        (JSON_get_all_sessions filter_username sessions))"
    by (simp add: get_active_sessions_def)
  from get_active_loop_view [OF this] obtain a b c d e f where
    "v = [(''session_id'', PStr a), (''username'', PStr b), (''created_at'', PIso c),
          (''last_activity'', PIso d), (''expires_at'', PIso e), (''scopes'', of_optional_str f)]"
    by blast
  from six_fields [OF this]
  show "map fst v = [''session_id'', ''username'', ''created_at'', ''last_activity'',
                     ''expires_at'', ''scopes'']"
    "str_field v ''session_id''" "str_field v ''username''" "iso_field v ''created_at''"
    "iso_field v ''last_activity''" "iso_field v ''expires_at''" "scopes_field v"
    by blast+
qed

theorem C8_view_fields_witness:
  "create_session ''alice'' None ''id1'' 30 int [(''s1'', alice_s1)]
     = Inr ([(''session_id'', PStr ''id1''), (''username'', PStr ''alice''),
             (''created_at'', PIso 2), (''expires_at'', PIso 1800000002), (''scopes'', PNone)],
            [(''id1'', \<lparr>s_session_id = ''id1'', s_username = ''alice'', s_created_at = 2,
                        s_last_activity = 2, s_scopes = None\<rparr>)])
   \<and> iso_field [(''session_id'', PStr ''id1''), (''username'', PStr ''alice''),
                (''created_at'', PIso 2), (''expires_at'', PIso 1800000002), (''scopes'', PNone)]
        ''expires_at''
   \<and> fst (validate_session ''s1'' True 30 5 6 id [(''s1'', alice_s1)])
       = Some [(''session_id'', PStr ''s1''), (''username'', PStr ''alice''),
               (''created_at'', PIso 0), (''last_activity'', PIso 6),
               (''expires_at'', PIso 1800000006), (''scopes'', PNone)]
   \<and> iso_field [(''session_id'', PStr ''s1''), (''username'', PStr ''alice''),
                (''created_at'', PIso 0), (''last_activity'', PIso 6),
                (''expires_at'', PIso 1800000006), (''scopes'', PNone)] ''last_activity''
   \<and> [(''session_id'', PStr ''s1''), (''username'', PStr ''alice''),
       (''created_at'', PIso 0), (''last_activity'', PIso 0),
       (''expires_at'', PIso 1800000000), (''scopes'', PNone)]
       \<in> set (get_active_sessions None 30 int [(''s1'', alice_s1)])
   \<and> scopes_field [(''session_id'', PStr ''s1''), (''username'', PStr ''alice''),
       (''created_at'', PIso 0), (''last_activity'', PIso 0),
       (''expires_at'', PIso 1800000000), (''scopes'', PNone)]"
proof -
  have a: "create_session ''alice'' None ''id1'' 30 int [(''s1'', alice_s1)]
     = Inr ([(''session_id'', PStr ''id1''), (''username'', PStr ''alice''),
             (''created_at'', PIso 2), (''expires_at'', PIso 1800000002), (''scopes'', PNone)],
            [(''id1'', \<lparr>s_session_id = ''id1'', s_username = ''alice'', s_created_at = 2,
                        s_last_activity = 2, s_scopes = None\<rparr>)])"
    by (simp add: create_session_def JSON_ensure_table_def JSON_get_user_max_sessions_def
        JSON_count_active_sessions_def JSON_get_oldest_session_def age_within_def
        Let_def store_eval AList.delete_eq)
  have b: "fst (validate_session ''s1'' True 30 5 6 id [(''s1'', alice_s1)])
       = Some [(''session_id'', PStr ''s1''), (''username'', PStr ''alice''),
               (''created_at'', PIso 0), (''last_activity'', PIso 6),
               (''expires_at'', PIso 1800000006), (''scopes'', PNone)]"
    by (simp add: validate_session_def store_eval)
  have c: "[(''session_id'', PStr ''s1''), (''username'', PStr ''alice''),
       (''created_at'', PIso 0), (''last_activity'', PIso 0),
       (''expires_at'', PIso 1800000000), (''scopes'', PNone)]
       \<in> set (get_active_sessions None 30 int [(''s1'', alice_s1)])"
    by (simp add: get_active_sessions_def JSON_get_all_sessions_def timedelta_def)
  from a b c
    C8_view_fields [of "''alice''" None "''id1''" 30 int "[(''s1'', alice_s1)]" "''s1''" True 5 6 id
      None int]
  show ?thesis
    by (simp add: iso_field_def scopes_field_def)
qed

section \<open>Renewal by default and in the request guard\<close>

lemma get_session_after_update:
  assumes "JSON_get_session session_id sessions = Some session"
  shows "JSON_get_session session_id (snd (JSON_update_last_activity session_id t sessions))
           = Some (session\<lparr>s_last_activity := t\<rparr>)"
proof -
  from assms have "(session_id, session) \<in> set sessions"
    by (simp add: JSON_get_session_def map_of_SomeD)
  then have "session_id \<in> set (map fst sessions)"
    by force
  with assms show ?thesis
    by (simp add: JSON_get_session_def JSON_update_last_activity_def AList.map_of_map_entry)
qed

lemma validate_session_renews:
  assumes "JSON_get_session session_id sessions = Some session"
    and "\<not> now_check > s_last_activity session + timedelta expiration_minutes"
  shows "snd (validate_session session_id True expiration_minutes now_check now_renew others sessions)
           = snd (JSON_update_last_activity session_id now_renew (others sessions))"
  using assms by (simp add: validate_session_def)

lemma py_words_from_nonempty: "w \<in> set (py_words_from cur s) \<Longrightarrow> w \<noteq> []"
  by (induction s arbitrary: cur) (auto split: if_splits)

lemma bearer_token_nonempty:
  assumes "bearer_token h = Some t"
  shows "t \<noteq> []"
proof -
  from assms have "t \<in> set (py_words h)"
    by (auto simp: bearer_token_def split: list.splits if_splits)
  then show ?thesis
    by (auto simp: py_words_def dest: py_words_from_nonempty)
qed

lemma header_parse_strict:
  "(case py_words h of
      [p0, p1] \<Rightarrow> (if py_lower p0 = ''bearer'' then Inr (Some p1) else Inl ())
    | _ \<Rightarrow> Inl ())
   = (case bearer_token h of None \<Rightarrow> Inl () | Some t \<Rightarrow> Inr (Some t))"
  by (simp add: bearer_token_def split: list.splits)

lemma header_parse_lenient:
  "(case py_words h of
      [p0, p1] \<Rightarrow> (if py_lower p0 = ''bearer'' then Some p1 else None)
    | _ \<Rightarrow> None)
   = bearer_token h"
  by (simp add: bearer_token_def)

lemma SessionDependency_call_no_token:
  assumes "guard_token request = None"
  shows "SessionDependency_call re scopes request expiration_minutes now_check now_renew others sessions
         = (Inl (HTTPException 401), sessions)"
proof (cases "if has_headers request then authorization request else None")
  case None
  with assms show ?thesis
    by (auto simp: SessionDependency_call_def guard_token_def cookie_token_def
        split: option.splits if_splits)
next
  case (Some h)
  show ?thesis
  proof (cases "h = []")
    case True
    with Some assms show ?thesis
      by (auto simp: SessionDependency_call_def guard_token_def cookie_token_def
          split: option.splits if_splits)
  next
    case False
    with Some assms have "bearer_token h = None"
      by (simp add: guard_token_def)
    with Some False show ?thesis
      by (simp add: SessionDependency_call_def header_parse_strict)
  qed
qed

lemma SessionDependency_call_token:
  assumes "guard_token request = Some t"
  shows "snd (SessionDependency_call re scopes request expiration_minutes now_check now_renew others sessions)
         = snd (validate_session t True expiration_minutes now_check now_renew others sessions)"
proof (cases "if has_headers request then authorization request else None")
  case None
  with assms show ?thesis
    by (auto simp: SessionDependency_call_def guard_token_def cookie_token_def
        split: option.splits if_splits sum.splits prod.splits)
next
  case (Some h)
  show ?thesis
  proof (cases "h = []")
    case True
    with Some assms show ?thesis
      by (auto simp: SessionDependency_call_def guard_token_def cookie_token_def
          split: option.splits if_splits sum.splits prod.splits)
  next
    case False
    with Some assms have b: "bearer_token h = Some t"
      by (simp add: guard_token_def)
    from bearer_token_nonempty [OF b] have "t \<noteq> []" .
    with Some False b show ?thesis
      by (simp add: SessionDependency_call_def header_parse_strict
          split: option.splits sum.splits prod.splits)
  qed
qed

lemma require_auth_no_token:
  assumes "guard_token request = None"
  shows "require_auth re scopes (Some request) expiration_minutes now_check now_renew others sessions
         = (reject (Some request) 401, sessions)"
proof (cases "if has_headers request then authorization request else None")
  case None
  with assms show ?thesis
    by (auto simp: require_auth_def guard_token_def cookie_token_def
        split: option.splits if_splits)
next
  case (Some h)
  show ?thesis
  proof (cases "h = []")
    case True
    with Some assms show ?thesis
      by (auto simp: require_auth_def guard_token_def cookie_token_def
          split: option.splits if_splits)
  next
    case False
    with Some assms have "bearer_token h = None"
      by (simp add: guard_token_def)
    with Some False show ?thesis
      by (simp add: require_auth_def header_parse_strict)
  qed
qed

lemma require_auth_no_request:
  "require_auth re scopes None expiration_minutes now_check now_renew others sessions
     = (reject None 401, sessions)"
  by (simp add: require_auth_def)

lemma require_auth_token:
  assumes "guard_token request = Some t"
  shows "snd (require_auth re scopes (Some request) expiration_minutes now_check now_renew others sessions)
         = snd (validate_session t True expiration_minutes now_check now_renew others sessions)"
proof (cases "if has_headers request then authorization request else None")
  case None
  with assms show ?thesis
    by (auto simp: require_auth_def guard_token_def cookie_token_def
        split: option.splits if_splits sum.splits prod.splits)
next
  case (Some h)
  show ?thesis
  proof (cases "h = []")
    case True
    with Some assms show ?thesis
      by (auto simp: require_auth_def guard_token_def cookie_token_def
          split: option.splits if_splits sum.splits prod.splits)
  next
    case False
    with Some assms have b: "bearer_token h = Some t"
      by (simp add: guard_token_def)
    from bearer_token_nonempty [OF b] have "t \<noteq> []" .
    with Some False b show ?thesis
      by (simp add: require_auth_def header_parse_strict
          split: option.splits sum.splits prod.splits)
  qed
qed

lemma get_session_from_request_token:
  "get_session_from_request request expiration_minutes now_check now_renew others sessions
     = (case lenient_token request of
          None \<Rightarrow> (None, sessions)
        | Some t \<Rightarrow> validate_session t True expiration_minutes now_check now_renew others sessions)"
proof (cases "has_headers request")
  case False
  then show ?thesis
    by (simp add: get_session_from_request_def lenient_token_def)
next
  case True
  show ?thesis
  proof (cases "case authorization request of None \<Rightarrow> None
                | Some h \<Rightarrow> (if h = [] then None else bearer_token h)")
    case None
    with True show ?thesis
      by (auto simp: get_session_from_request_def lenient_token_def cookie_token_def
          header_parse_lenient split: option.splits if_splits)
  next
    case (Some t)
    then obtain h where h: "authorization request = Some h" "h \<noteq> []" "bearer_token h = Some t"
      by (auto split: option.splits if_splits)
    from bearer_token_nonempty [OF h(3)] have "t \<noteq> []" .
    with True h show ?thesis
      by (simp add: get_session_from_request_def lenient_token_def header_parse_lenient)
  qed
qed

text \<open>
  C10. A call of \<open>validate_session\<close> without \<open>renew\<close> is a call with \<open>renew=True\<close>, and for
  a session that is found and unexpired such a call, running alone, leaves the stored
  \<open>last_activity\<close> at the time of the call. For every request, whatever its header and
  its cookie:
  \<^item> \<open>require_auth\<close> and \<open>SessionDependency\<close> reject a request without a credential with 401
    and leave the storage as it was, and for a request with the credential \<open>t\<close> (from the
    header in any spelling, or from the cookie) they leave the storage as the renewing
    validation of \<open>t\<close> leaves it;
  \<^item> \<open>get_session_from_request\<close> returns \<open>None\<close> for a request without a credential and is
    the renewing validation of \<open>t\<close> for a request with the credential \<open>t\<close>.

  So when the credential is the \<open>session_id\<close> of a session that is found and unexpired,
  each of the three guards, running alone, leaves its stored \<open>last_activity\<close> at the time
  of the call. A call with \<open>renew=False\<close> leaves the storage as it was.
\<close>

theorem C10_renew_by_default:
  "validate_session_default sid = validate_session sid True
   \<and> (JSON_get_session sid sessions = Some session
        \<and> \<not> now_check > s_last_activity session + timedelta expiration_minutes \<longrightarrow>
        JSON_get_session sid
          (snd (validate_session_default sid expiration_minutes now_check now_renew id sessions))
          = Some (session\<lparr>s_last_activity := now_renew\<rparr>))
   \<and> require_auth re scopes None expiration_minutes now_check now_renew others sessions
        = (reject None 401, sessions)
   \<and> (case guard_token request of
         None \<Rightarrow>
           require_auth re scopes (Some request) expiration_minutes now_check now_renew
             others sessions = (reject (Some request) 401, sessions)
           \<and> SessionDependency_call re scopes request expiration_minutes now_check now_renew
               others sessions = (Inl (HTTPException 401), sessions)
       | Some t \<Rightarrow>
           snd (require_auth re scopes (Some request) expiration_minutes now_check now_renew
                  others sessions)
             = snd (validate_session_default t expiration_minutes now_check now_renew
                      others sessions)
           \<and> snd (SessionDependency_call re scopes request expiration_minutes now_check
                    now_renew others sessions)
             = snd (validate_session_default t expiration_minutes now_check now_renew
                      others sessions))
   \<and> get_session_from_request request expiration_minutes now_check now_renew others sessions
        = (case lenient_token request of
             None \<Rightarrow> (None, sessions)
           | Some t \<Rightarrow>
               validate_session_default t expiration_minutes now_check now_renew others sessions)
   \<and> (JSON_get_session sid sessions = Some session
        \<and> \<not> now_check > s_last_activity session + timedelta expiration_minutes
        \<and> guard_token request = Some sid \<longrightarrow>
        JSON_get_session sid
          (snd (require_auth re scopes (Some request) expiration_minutes now_check now_renew
                  id sessions))
          = Some (session\<lparr>s_last_activity := now_renew\<rparr>)
        \<and> JSON_get_session sid
            (snd (SessionDependency_call re scopes request expiration_minutes now_check
                    now_renew id sessions))
          = Some (session\<lparr>s_last_activity := now_renew\<rparr>))
   \<and> (JSON_get_session sid sessions = Some session
        \<and> \<not> now_check > s_last_activity session + timedelta expiration_minutes
        \<and> lenient_token request = Some sid \<longrightarrow>
        JSON_get_session sid
          (snd (get_session_from_request request expiration_minutes now_check now_renew
                  id sessions))
          = Some (session\<lparr>s_last_activity := now_renew\<rparr>))
   \<and> snd (validate_session sid False expiration_minutes now_check now_renew others sessions)
        = sessions"
proof -
  have renew: "JSON_get_session sid
          (snd (validate_session sid True expiration_minutes now_check now_renew id sessions))
        = Some (session\<lparr>s_last_activity := now_renew\<rparr>)"
    if "JSON_get_session sid sessions = Some session"
      and "\<not> now_check > s_last_activity session + timedelta expiration_minutes"
    using validate_session_renews [OF that, of now_renew id]
      get_session_after_update [OF that(1), of now_renew]
    by simp
  have peek: "snd (validate_session sid False expiration_minutes now_check now_renew
                        others sessions) = sessions"
    by (simp add: validate_session_def split: option.splits)
  have guards: "case guard_token request of
         None \<Rightarrow>
           require_auth re scopes (Some request) expiration_minutes now_check now_renew
             others sessions = (reject (Some request) 401, sessions)
           \<and> SessionDependency_call re scopes request expiration_minutes now_check now_renew
               others sessions = (Inl (HTTPException 401), sessions)
       | Some t \<Rightarrow>
           snd (require_auth re scopes (Some request) expiration_minutes now_check now_renew
                  others sessions)
             = snd (validate_session t True expiration_minutes now_check now_renew
                      others sessions)
           \<and> snd (SessionDependency_call re scopes request expiration_minutes now_check
                    now_renew others sessions)
             = snd (validate_session t True expiration_minutes now_check now_renew
                      others sessions)"
    by (simp add: require_auth_no_token SessionDependency_call_no_token
        require_auth_token SessionDependency_call_token split: option.splits)
  show ?thesis
    unfolding validate_session_default_def
    using renew peek guards
    by (simp add: require_auth_no_request get_session_from_request_token
        require_auth_token SessionDependency_call_token)
qed


theorem C10_renew_by_default_witness:
  "JSON_get_session ''s1'' [(''s1'', alice_s1)] = Some alice_s1
   \<and> \<not> 5 > s_last_activity alice_s1 + timedelta 30
   \<and> guard_token cookie_s1 = Some ''s1'' \<and> lenient_token cookie_s1 = Some ''s1''
   \<and> JSON_get_session ''s1''
        (snd (validate_session_default ''s1'' 30 5 6 id [(''s1'', alice_s1)]))
       = Some (alice_s1\<lparr>s_last_activity := 6\<rparr>)
   \<and> JSON_get_session ''s1''
        (snd (require_auth re_match None (Some cookie_s1) 30 5 6 id [(''s1'', alice_s1)]))
       = Some (alice_s1\<lparr>s_last_activity := 6\<rparr>)
   \<and> JSON_get_session ''s1''
        (snd (SessionDependency_call re_match None cookie_s1 30 5 6 id [(''s1'', alice_s1)]))
       = Some (alice_s1\<lparr>s_last_activity := 6\<rparr>)
   \<and> JSON_get_session ''s1''
        (snd (get_session_from_request cookie_s1 30 5 6 id [(''s1'', alice_s1)]))
       = Some (alice_s1\<lparr>s_last_activity := 6\<rparr>)
   \<and> guard_token lower_bearer_s1 = Some ''s1'' \<and> lenient_token lower_bearer_s1 = Some ''s1''
   \<and> JSON_get_session ''s1''
        (snd (SessionDependency_call re_match None lower_bearer_s1 30 5 6 id
                [(''s1'', alice_s1)]))
       = Some (alice_s1\<lparr>s_last_activity := 6\<rparr>)"
proof -
  have a: "JSON_get_session ''s1'' [(''s1'', alice_s1)] = Some alice_s1"
    by (simp add: JSON_get_session_def)
  have b: "\<not> 5 > s_last_activity alice_s1 + timedelta 30"
    by (simp add: timedelta_def)
  have c: "guard_token cookie_s1 = Some ''s1''" "lenient_token cookie_s1 = Some ''s1''"
    by (simp_all add: guard_token_def lenient_token_def cookie_token_def)
  have w: "py_words ''bearer  s1'' = [''bearer'', ''s1'']"
    by (simp add: py_words_def is_space_def)
  have l: "py_lower ''bearer'' = ''bearer''"
    by code_simp
  have d: "guard_token lower_bearer_s1 = Some ''s1''" "lenient_token lower_bearer_s1 = Some ''s1''"
    by (simp_all add: guard_token_def lenient_token_def bearer_token_def w l)
  from C10_renew_by_default [where sid = "''s1''" and sessions = "[(''s1'', alice_s1)]"
         and session = alice_s1 and now_check = 5 and expiration_minutes = 30 and now_renew = 6
         and re = re_match and scopes = None and others = id and request = cookie_s1]
       C10_renew_by_default [where sid = "''s1''" and sessions = "[(''s1'', alice_s1)]"
         and session = alice_s1 and now_check = 5 and expiration_minutes = 30 and now_renew = 6
         and re = re_match and scopes = None and others = id and request = lower_bearer_s1]
       a b c d
  show ?thesis by (simp add: validate_session_default_def)
qed

section \<open>The session quota\<close>

lemmas create_eval = create_session_def JSON_ensure_table_def JSON_get_user_max_sessions_def
  JSON_count_active_sessions_def JSON_get_oldest_session_def age_within_def Let_def
  JSON_get_session_def JSON_update_last_activity_def JSON_delete_session_def
  JSON_create_session_def timedelta_def AList.delete_eq

lemma count_loop_active_rows:
  "JSON_count_loop u m t rows = int (length (active_rows u m t rows))"
  by (induction rows) (simp_all add: active_rows_def)

lemma count_active_rows:
  "JSON_count_active_sessions u m t sessions = int (length (active_rows u m t (map snd sessions)))"
  by (simp add: JSON_count_active_sessions_def count_loop_active_rows)

lemma oldest_loop_result:
  assumes "JSON_oldest_loop u m t rows acc = Inr r"
  shows "case acc of
           None \<Rightarrow> active_rows u m t rows = (case r of None \<Rightarrow> [] | Some s \<Rightarrow> [s])
         | Some a \<Rightarrow> active_rows u m t rows = [] \<and> r = Some a"
  using assms
proof (induction rows arbitrary: acc)
  case Nil
  then show ?case by (simp add: active_rows_def split: option.splits)
next
  case (Cons row rows)
  show ?case
  proof (cases "s_username row = u \<and> age_within t (s_last_activity row) m")
    case False
    with Cons.prems have "JSON_oldest_loop u m t rows acc = Inr r"
      by (auto split: if_splits)
    from Cons.IH [OF this] False show ?thesis
      by (auto simp: active_rows_def split: option.splits)
  next
    case True
    show ?thesis
    proof (cases acc)
      case None
      with True Cons.prems have "JSON_oldest_loop u m t rows (Some row) = Inr r"
        by simp
      from Cons.IH [OF this] None True show ?thesis
        by (simp add: active_rows_def)
    next
      case (Some a)
      with True Cons.prems show ?thesis by simp
    qed
  qed
qed

lemma get_oldest_result:
  assumes "JSON_get_oldest_session u m t sessions = Inr r"
  shows "active_rows u m t (map snd sessions) = (case r of None \<Rightarrow> [] | Some s \<Rightarrow> [s])"
  using oldest_loop_result [of u m t "map snd sessions" None r] assms
  by (simp add: JSON_get_oldest_session_def)

lemma oldest_loop_returns:
  assumes "case acc of None \<Rightarrow> length (active_rows u m t rows) \<le> 1
                     | Some a \<Rightarrow> active_rows u m t rows = []"
  shows "\<exists>r. JSON_oldest_loop u m t rows acc = Inr r"
  using assms
proof (induction rows arbitrary: acc)
  case Nil
  then show ?case by simp
next
  case (Cons row rows)
  then show ?case
    by (cases acc) (auto simp: active_rows_def split: if_splits)
qed

lemma get_oldest_returns:
  assumes "length (active_rows u m t (map snd sessions)) \<le> 1"
  shows "\<exists>r. JSON_get_oldest_session u m t sessions = Inr r"
  using oldest_loop_returns [where acc = None and rows = "map snd sessions"] assms
  by (simp add: JSON_get_oldest_session_def)

lemma active_rows_later:
  assumes "t \<le> t'"
  shows "length (active_rows u m t' rows) \<le> length (active_rows u m t rows)"
  using assms by (induction rows) (auto simp: active_rows_def age_within_def)

lemma keys_agree_delete:
  "keys_agree sessions \<Longrightarrow> keys_agree (snd (JSON_delete_session k sessions))"
  by (auto simp: keys_agree_def JSON_delete_session_def AList.delete_eq list_all_iff)

lemma keys_agree_create:
  "keys_agree sessions \<Longrightarrow> keys_agree (snd (JSON_create_session k u c l sc sessions))"
  by (induction sessions) (auto simp: keys_agree_def JSON_create_session_def)

lemma active_rows_after_delete:
  assumes "keys_agree sessions"
    and "active_rows u m t (map snd sessions) = [s]"
  shows "active_rows u m t (map snd (snd (JSON_delete_session (s_session_id s) sessions))) = []"
proof -
  have "\<not> (s_username r = u \<and> age_within t (s_last_activity r) m)"
    if "r \<in> set (map snd (AList.delete (s_session_id s) sessions))" for r
  proof
    assume act: "s_username r = u \<and> age_within t (s_last_activity r) m"
    from that obtain k where k: "(k, r) \<in> set sessions" "k \<noteq> s_session_id s"
      by (auto simp: AList.delete_eq)
    then have "r \<in> set (active_rows u m t (map snd sessions))"
      using act by (force simp: active_rows_def)
    with assms(2) have "r = s" by simp
    moreover from k(1) assms(1) have "s_session_id r = k"
      by (auto simp: keys_agree_def list_all_iff)
    ultimately show False using k(2) by simp
  qed
  then have "active_rows u m t (map snd (AList.delete (s_session_id s) sessions)) = []"
    unfolding active_rows_def filter_empty_conv by blast
  moreover have "s_session_id s \<in> set (map fst sessions)"
  proof -
    from assms(2) have "s \<in> set (active_rows u m t (map snd sessions))" by simp
    then obtain k where "(k, s) \<in> set sessions"
      by (auto simp: active_rows_def)
    with assms(1) show ?thesis
      by (force simp: keys_agree_def list_all_iff)
  qed
  ultimately show ?thesis
    by (simp add: JSON_delete_session_def)
qed

lemma active_rows_after_create_le:
  "length (active_rows u m t (map snd (snd (JSON_create_session k u' c l sc sessions))))
     \<le> length (active_rows u m t (map snd sessions)) + 1"
  by (induction sessions) (auto simp: JSON_create_session_def active_rows_def)

lemma active_rows_after_create_ge:
  assumes "age_within t l m"
  shows "1 \<le> length (active_rows u m t (map snd (snd (JSON_create_session k u c l sc sessions))))"
proof -
  let ?new = "\<lparr>s_session_id = k, s_username = u, s_created_at = c, s_last_activity = l, s_scopes = sc\<rparr>"
  have "map_of (AList.update k ?new sessions) k = Some ?new"
    by (simp add: update_conv')
  then have "(k, ?new) \<in> set (AList.update k ?new sessions)"
    by (rule map_of_SomeD)
  then have "?new \<in> set (map snd (AList.update k ?new sessions))"
    by force
  with assms have "?new \<in> set (active_rows u m t (map snd (AList.update k ?new sessions)))"
    by (simp add: active_rows_def)
  then have "active_rows u m t (map snd (AList.update k ?new sessions)) \<noteq> []"
    by auto
  then show ?thesis
    by (cases "active_rows u m t (map snd (AList.update k ?new sessions))")
       (simp_all add: JSON_create_session_def)
qed

lemma evict_loop_post:
  assumes "evict_loop u m clock mx a k sessions = Inr (k', sessions')"
    and "keys_agree sessions" and "mono clock" and "1 \<le> k"
    and "int (length (active_rows u m (clock (k - 1)) (map snd sessions))) \<le> a"
  shows "k \<le> k' \<and> keys_agree sessions'
         \<and> int (length (active_rows u m (clock (k' - 1)) (map snd sessions'))) \<le> max (mx - 1) 0"
  using assms
proof (induction u m clock mx a k sessions rule: evict_loop.induct)
  case (1 u m clock mx a k sessions)
  show ?case
  proof (cases "a \<ge> mx")
    case False
    with "1.prems" show ?thesis by simp
  next
    case True
    from "1.prems"(1) True obtain r where r: "JSON_get_oldest_session u m (clock k) sessions = Inr r"
      by (cases "JSON_get_oldest_session u m (clock k) sessions") simp_all
    note act = get_oldest_result [OF r]
    show ?thesis
    proof (cases r)
      case None
      with "1.prems"(1) True r have "k' = Suc k" "sessions' = sessions" by simp_all
      with "1.prems"(2) act None show ?thesis by simp
    next
      case (Some s)
      let ?st = "snd (JSON_delete_session (s_session_id s) sessions)"
      from "1.prems"(1) True r Some
      have run: "evict_loop u m clock mx (a - 1) (Suc k) ?st = Inr (k', sessions')"
        by simp
      have wf: "keys_agree ?st"
        using "1.prems"(2) by (rule keys_agree_delete)
      have gone: "active_rows u m (clock k) (map snd ?st) = []"
        using "1.prems"(2) act Some by (simp add: active_rows_after_delete)
      have "clock (k - 1) \<le> clock k"
        using "1.prems"(3) by (simp add: monoD)
      then have "length (active_rows u m (clock k) (map snd sessions))
                   \<le> length (active_rows u m (clock (k - 1)) (map snd sessions))"
        by (rule active_rows_later)
      with act Some "1.prems"(5) have "1 \<le> a" by simp
      with gone have le: "int (length (active_rows u m (clock (Suc k - 1)) (map snd ?st))) \<le> a - 1"
        by simp
      from "1.IH" [OF True r Some run wf "1.prems"(3) _ le]
      show ?thesis by simp
    qed
  qed
qed

lemma evict_loop_returns:
  assumes "keys_agree sessions" and "mono clock" and "1 \<le> k"
    and "length (active_rows u m (clock (k - 1)) (map snd sessions)) \<le> 1"
  shows "\<exists>res. evict_loop u m clock mx a k sessions = Inr res"
  using assms
proof (induction u m clock mx a k sessions rule: evict_loop.induct)
  case (1 u m clock mx a k sessions)
  show ?case
  proof (cases "a \<ge> mx")
    case False
    then show ?thesis by simp
  next
    case True
    have "clock (k - 1) \<le> clock k"
      using "1.prems"(2) by (simp add: monoD)
    then have "length (active_rows u m (clock k) (map snd sessions))
                 \<le> length (active_rows u m (clock (k - 1)) (map snd sessions))"
      by (rule active_rows_later)
    with "1.prems"(4) have "length (active_rows u m (clock k) (map snd sessions)) \<le> 1"
      by simp
    from get_oldest_returns [OF this]
    obtain r where r: "JSON_get_oldest_session u m (clock k) sessions = Inr r"
      by blast
    note act = get_oldest_result [OF r]
    show ?thesis
    proof (cases r)
      case None
      with True r show ?thesis by simp
    next
      case (Some s)
      let ?st = "snd (JSON_delete_session (s_session_id s) sessions)"
      have wf: "keys_agree ?st"
        using "1.prems"(1) by (rule keys_agree_delete)
      have "active_rows u m (clock k) (map snd ?st) = []"
        using "1.prems"(1) act Some by (simp add: active_rows_after_delete)
      then have "length (active_rows u m (clock (Suc k - 1)) (map snd ?st)) \<le> 1"
        by simp
      from "1.IH" [OF True r Some wf "1.prems"(2) _ this] True r Some
      show ?thesis by simp
    qed
  qed
qed

text \<open>
  Calls of \<open>create_session\<close> that run one after the other, on a file that this code
  wrote and with a clock that does not run backwards, leave the user with at most one
  active session, and with exactly one when the timeout is not negative.
\<close>

lemma create_session_post:
  assumes "create_session u scopes uuid m clock sessions = Inr (v, sessions')"
    and "keys_agree sessions" and "mono clock"
  shows "\<exists>k. map_of v ''created_at'' = Some (PIso (clock k))
           \<and> keys_agree sessions'
           \<and> (\<forall>t. clock k \<le> t \<longrightarrow> JSON_count_active_sessions u m t sessions' \<le> 1)
           \<and> (0 \<le> m \<longrightarrow> JSON_count_active_sessions u m (clock k) sessions' = 1)"
proof -
  let ?a = "JSON_count_active_sessions u m (clock 0) sessions"
  from assms(1) obtain k st where
    run: "evict_loop u m clock 1 ?a 1 sessions = Inr (k, st)"
    and v: "v = [(''session_id'', PStr uuid), (''username'', PStr u), (''created_at'', PIso (clock k)),
                 (''expires_at'', PIso (clock k + timedelta m)), (''scopes'', of_optional_str scopes)]"
    and st': "sessions' = snd (JSON_create_session uuid u (clock k) (clock k) scopes st)"
    by (auto simp: create_session_def JSON_ensure_table_def JSON_get_user_max_sessions_def Let_def
        split: sum.splits prod.splits)
  from evict_loop_post [OF run assms(2,3)]
  have k: "1 \<le> k" and wf: "keys_agree st"
    and none: "active_rows u m (clock (k - 1)) (map snd st) = []"
    by (simp_all add: count_active_rows)
  have le: "JSON_count_active_sessions u m t sessions' \<le> 1" if "clock k \<le> t" for t
  proof -
    have "clock (k - 1) \<le> clock k"
      using assms(3) by (simp add: monoD)
    with that have "clock (k - 1) \<le> t" by simp
    from active_rows_later [OF this, of u m "map snd st"] none
    have "active_rows u m t (map snd st) = []" by simp
    with active_rows_after_create_le [of u m t uuid u "clock k" "clock k" scopes st]
    show ?thesis by (simp add: count_active_rows st')
  qed
  have ge: "JSON_count_active_sessions u m (clock k) sessions' = 1" if "0 \<le> m"
  proof -
    from that have "age_within (clock k) (clock k) m"
      by (simp add: age_within_def)
    from active_rows_after_create_ge [OF this, of u uuid "clock k" scopes st] le [of "clock k"]
    show ?thesis by (simp add: count_active_rows st')
  qed
  from v wf le ge show ?thesis
    by (auto simp: st' keys_agree_create)
qed

lemma create_session_returns:
  assumes "keys_agree sessions" and "mono clock"
    and "JSON_count_active_sessions u m (clock 0) sessions \<le> 1"
  shows "\<exists>v sessions'. create_session u scopes uuid m clock sessions = Inr (v, sessions')"
proof -
  from assms(3) have "length (active_rows u m (clock (1 - 1)) (map snd sessions)) \<le> 1"
    by (simp add: count_active_rows)
  from evict_loop_returns [OF assms(1,2) _ this, of 1 "JSON_count_active_sessions u m (clock 0) sessions"]
  obtain res where "evict_loop u m clock 1 (JSON_count_active_sessions u m (clock 0) sessions) 1 sessions = Inr res"
    by auto
  then show ?thesis
    by (cases res)
       (simp add: create_session_def JSON_ensure_table_def JSON_get_user_max_sessions_def Let_def)
qed

text \<open>
  When the user has two or more active sessions, \<open>get_oldest_session\<close> raises
  \<open>TypeError\<close>: the first active session is stored in \<open>oldest\<close> with a \<open>datetime\<close> as its
  \<open>last_activity\<close>, and the comparison with the second one parses it as a string.
\<close>

lemma oldest_loop_raises:
  assumes "case acc of
             None \<Rightarrow> 2 \<le> length (active_rows u m t rows)
           | Some a \<Rightarrow> 1 \<le> length (active_rows u m t rows)"
  shows "JSON_oldest_loop u m t rows acc = Inl TypeError"
  using assms
proof (induction rows arbitrary: acc)
  case Nil
  then show ?case by (simp add: active_rows_def split: option.splits)
next
  case (Cons row rows)
  show ?case
  proof (cases "s_username row = u \<and> age_within t (s_last_activity row) m")
    case False
    with Cons.prems
    have "case acc of
            None \<Rightarrow> 2 \<le> length (active_rows u m t rows)
          | Some a \<Rightarrow> 1 \<le> length (active_rows u m t rows)"
      by (auto simp: active_rows_def split: option.splits)
    from Cons.IH [OF this] False show ?thesis by auto
  next
    case True
    show ?thesis
    proof (cases acc)
      case None
      with True Cons.prems have "1 \<le> length (active_rows u m t rows)"
        by (simp add: active_rows_def)
      then have "JSON_oldest_loop u m t rows (Some row) = Inl TypeError"
        by (intro Cons.IH) simp
      with True None show ?thesis by simp
    next
      case (Some a)
      with True show ?thesis by simp
    qed
  qed
qed

lemma get_oldest_raises:
  assumes "2 \<le> length (active_rows u m t (map snd sessions))"
  shows "JSON_get_oldest_session u m t sessions = Inl TypeError"
  using oldest_loop_raises [where acc = None and rows = "map snd sessions"] assms
  by (simp add: JSON_get_oldest_session_def)

text \<open>
  C4. The claim: every eviction removes the active session of the user with the smallest
  \<open>last_activity\<close>, and after a create the user has no more active sessions than the
  maximum. In the sessions file below \<open>bob\<close> has two active sessions, \<open>s1\<close> with the
  smaller \<open>last_activity\<close> and \<open>s2\<close>, one more than the maximum of the storage. Such a
  file is left by two logins of \<open>bob\<close> that run at the same time, or by
  \<open>JSONSessionStorage.create_session\<close> called twice. The claim has the next
  \<open>create_session\<close> for \<open>bob\<close> evict \<open>s1\<close>. In the code \<open>get_oldest_session\<close> raises
  \<open>TypeError\<close> at line 253, so \<open>create_session\<close> raises too: nothing is evicted and no
  session is created.
\<close>

theorem C4_two_active_sessions_raise:
  "JSON_get_user_max_sessions ''bob'' = 1
   \<and> JSON_count_active_sessions ''bob'' 30 2 [(''s1'', bob_s1), (''s2'', bob_s2)] = 2
   \<and> active_rows ''bob'' 30 3 [bob_s1, bob_s2] = [bob_s1, bob_s2]
   \<and> s_last_activity bob_s1 < s_last_activity bob_s2
   \<and> JSON_get_oldest_session ''bob'' 30 3 [(''s1'', bob_s1), (''s2'', bob_s2)] = Inl TypeError
   \<and> create_session ''bob'' None ''s3'' 30 (\<lambda>k. 2 + int k) [(''s1'', bob_s1), (''s2'', bob_s2)]
       = Inl TypeError"
  by (simp add: create_eval active_rows_def)

end
